theory Spec2Isabelle
  imports Main "HOL-Library.Word" "HOL-Library.Multiset" "HOL-Library.Sublist"
begin

section \<open>The tree of \<^verbatim>\<open>new.c\<close>\<close>

text \<open>
  The program keeps a binary search tree of \<^verbatim>\<open>struct node\<close> cells, each holding an
  \<^verbatim>\<open>int data\<close>, two child pointers and an \<^verbatim>\<open>int height\<close>.  Every cell comes from one
  \<^verbatim>\<open>malloc\<close> in \<^verbatim>\<open>createnode\<close> and is linked in exactly once, so the pointer graph is
  a tree without sharing, and it is modelled as a value: \<open>Null\<close> is the \<^verbatim>\<open>NULL\<close> pointer
  and \<open>Node\<close> a cell with its four fields in the order of the struct.  A C function that
  mutates the cells it is handed returns the mutated tree in the model.

  A C \<^verbatim>\<open>int\<close> is a 32-bit two's complement word, and the comparisons of the source
  are the signed ones (\<open><s\<close>).  The \<open>+\<close> of \<^verbatim>\<open>updateheight\<close> and the \<open>-\<close> of
  \<^verbatim>\<open>balancingfactor\<close> wrap around, as the machine instructions do; they can only
  overflow on height fields that were never set, and no result below rests on a
  wrapped value.
\<close>

type_synonym cint = "32 word"

datatype node = Null | Node (data: cint) (left: node) (right: node) (height: cint)

text \<open>Dereferencing \<^verbatim>\<open>NULL\<close> is the one way the functions below can fail.\<close>

datatype error = NullDeref

subsection \<open>Allocation and insertion\<close>

text \<open>
  \<^verbatim>\<open>createnode\<close> assigns \<^verbatim>\<open>data\<close>, \<^verbatim>\<open>left\<close> and \<^verbatim>\<open>right\<close> and leaves \<^verbatim>\<open>height\<close> as
  \<^verbatim>\<open>malloc\<close> delivered it.  The second argument \<open>junk\<close> is that content of the fresh
  block; \<^verbatim>\<open>malloc\<close> is taken to succeed (the source does not test its result).
\<close>

definition createnode :: "cint \<Rightarrow> cint \<Rightarrow> node" where
  "createnode d junk = Node d Null Null junk"

text \<open>One call of \<^verbatim>\<open>insert\<close> allocates one cell, so it takes one \<open>junk\<close>.\<close>

fun insert_node :: "node \<Rightarrow> cint \<Rightarrow> cint \<Rightarrow> node" where
  "insert_node Null d junk = createnode d junk"
| "insert_node (Node k l r h) d junk =
     (if d <s k then Node k (insert_node l d junk) r h
      else Node k l (insert_node r d junk) h)"

subsection \<open>Heights and the balance factor\<close>

fun getheight :: "node \<Rightarrow> cint" where
  "getheight Null = 0"
| "getheight (Node k l r h) = h"

definition max_int :: "cint \<Rightarrow> cint \<Rightarrow> cint" where
  "max_int a b = (if b <s a then a else b)"

text \<open>
  \<^verbatim>\<open>updateheight\<close> stores the new height in the cell and returns it: the model returns
  the cell after the store together with the returned \<^verbatim>\<open>int\<close>.
\<close>

fun updateheight :: "node \<Rightarrow> error + (node \<times> cint)" where
  "updateheight Null = Inl NullDeref"
| "updateheight (Node k l r h) =
     (let leftHeight = getheight l;
          rightHeight = getheight r;
          h' = max_int leftHeight rightHeight + 1
      in Inr (Node k l r h', h'))"

fun balancingfactor :: "node \<Rightarrow> cint" where
  "balancingfactor Null = 0"
| "balancingfactor (Node k l r h) =
     (let leftheight = getheight l;
          rightheight = getheight r
      in leftheight - rightheight)"

subsection \<open>Rotations\<close>

text \<open>
  \<^verbatim>\<open>leftrotation\<close> reads \<^verbatim>\<open>root->right\<close> and then \<^verbatim>\<open>newnode->left\<close>: both cells must
  exist.  Neither rotation touches a \<^verbatim>\<open>data\<close> or \<^verbatim>\<open>height\<close> field.
\<close>

fun leftrotation :: "node \<Rightarrow> error + node" where
  "leftrotation (Node k l (Node rk rl rr rh) h) = Inr (Node rk (Node k l rl h) rr rh)"
| "leftrotation _ = Inl NullDeref"

fun rightrotation :: "node \<Rightarrow> error + node" where
  "rightrotation (Node k (Node lk ll lr lh) r h) = Inr (Node lk ll (Node k lr r h) lh)"
| "rightrotation _ = Inl NullDeref"

fun rightleftrotation :: "node \<Rightarrow> error + node" where
  "rightleftrotation Null = Inl NullDeref"
| "rightleftrotation (Node k l r h) =
     (case rightrotation r of
        Inl e \<Rightarrow> Inl e
      | Inr r' \<Rightarrow> leftrotation (Node k l r' h))"

fun leftrightrotation :: "node \<Rightarrow> error + node" where
  "leftrightrotation Null = Inl NullDeref"
| "leftrightrotation (Node k l r h) =
     (case leftrotation l of
        Inl e \<Rightarrow> Inl e
      | Inr l' \<Rightarrow> rightrotation (Node k l' r h))"

subsection \<open>Rebalancing one cell\<close>

text \<open>
  \<^verbatim>\<open>balance\<close> computes the balance factor, then updates the height of \<^verbatim>\<open>root\<close>, then
  chooses a rotation from the factor computed first.  On \<^verbatim>\<open>NULL\<close> the call of
  \<^verbatim>\<open>updateheight\<close> dereferences it.
\<close>

definition balance :: "node \<Rightarrow> error + node" where
  "balance root =
     (let balancefactor = balancingfactor root in
      case updateheight root of
        Inl e \<Rightarrow> Inl e
      | Inr (root, _) \<Rightarrow>
          (case root of
             Null \<Rightarrow> Inl NullDeref
           | Node _ l r _ \<Rightarrow>
               if 1 <s balancefactor then
                 (if balancingfactor l <s 0 then leftrightrotation root
                  else rightrotation root)
               else if balancefactor <s - 1 then
                 (if 0 <s balancingfactor r then rightleftrotation root
                  else leftrotation root)
               else Inr root))"

subsection \<open>Traversal and the driver\<close>

text \<open>\<^verbatim>\<open>inorder\<close> prints the keys; the model returns them in the order printed.\<close>

fun inorder :: "node \<Rightarrow> cint list" where
  "inorder Null = []"
| "inorder (Node k l r h) = inorder l @ [k] @ inorder r"

text \<open>
  The loop of \<^verbatim>\<open>main\<close>: for each remaining key, \<^verbatim>\<open>insert\<close> and then one \<^verbatim>\<open>balance\<close>
  of the root.  Each element of the list is a key with the \<open>junk\<close> of its allocation.
\<close>

fun main_loop :: "node \<Rightarrow> (cint \<times> cint) list \<Rightarrow> error + node" where
  "main_loop root [] = Inr root"
| "main_loop root ((d, junk) # rest) =
     (case balance (insert_node root d junk) of
        Inl e \<Rightarrow> Inl e
      | Inr root' \<Rightarrow> main_loop root' rest)"

text \<open>
  \<^verbatim>\<open>main\<close> on the array \<^verbatim>\<open>{1, 2, 3, 4, 5}\<close>: the first cell comes from \<^verbatim>\<open>createnode\<close>
  directly.  The five arguments are the \<open>junk\<close> of the five allocations; the result is
  the final tree, of which the program prints \<open>inorder\<close>.
\<close>

definition main :: "cint \<Rightarrow> cint \<Rightarrow> cint \<Rightarrow> cint \<Rightarrow> cint \<Rightarrow> error + node" where
  "main j0 j1 j2 j3 j4 =
     main_loop (createnode 1 j0) [(2, j1), (3, j2), (4, j3), (5, j4)]"


section \<open>Notions used to state the properties\<close>

subsection \<open>What a tree contains\<close>

text \<open>
  The cells of a tree, each with the two fields no rotation may change, as a multiset;
  their number; and the height of the tree as a shape, which the \<^verbatim>\<open>height\<close> fields are
  meant to cache (\<open>0\<close> for \<^verbatim>\<open>NULL\<close>, \<open>1\<close> for a leaf).
\<close>

fun cells :: "node \<Rightarrow> (cint \<times> cint) multiset" where
  "cells Null = {#}"
| "cells (Node k l r h) = {#(k, h)#} + cells l + cells r"

fun count_nodes :: "node \<Rightarrow> nat" where
  "count_nodes Null = 0"
| "count_nodes (Node k l r h) = 1 + count_nodes l + count_nodes r"

fun tree_height :: "node \<Rightarrow> nat" where
  "tree_height Null = 0"
| "tree_height (Node k l r h) = 1 + max (tree_height l) (tree_height r)"

text \<open>A key sequence is non-decreasing in the signed order of \<^verbatim>\<open>int\<close>.\<close>

definition nondecreasing :: "cint list \<Rightarrow> bool" where
  "nondecreasing ks = sorted_wrt (\<lambda>a b. a \<le>s b) ks"

text \<open>A caller that inserts a sequence of keys with \<^verbatim>\<open>insert\<close> alone.\<close>

fun insert_keys :: "node \<Rightarrow> (cint \<times> cint) list \<Rightarrow> node" where
  "insert_keys root [] = root"
| "insert_keys root ((d, junk) # rest) = insert_keys (insert_node root d junk) rest"

subsection \<open>Positions in a tree\<close>

text \<open>
  A position is the list of child links followed from the root.  \<open>descent\<close> is the
  position at which the search of \<^verbatim>\<open>insert\<close> for a key ends, \<open>subtree_at\<close> reads the
  subtree at a position (\<open>None\<close> when the position is not in the tree) and \<open>graft\<close>
  replaces it, leaving every other link as it is.
\<close>

datatype step = GoLeft | GoRight

fun descent :: "node \<Rightarrow> cint \<Rightarrow> step list" where
  "descent Null d = []"
| "descent (Node k l r h) d =
     (if d <s k then GoLeft # descent l d else GoRight # descent r d)"

fun subtree_at :: "node \<Rightarrow> step list \<Rightarrow> node option" where
  "subtree_at t [] = Some t"
| "subtree_at Null (s # p) = None"
| "subtree_at (Node k l r h) (GoLeft # p) = subtree_at l p"
| "subtree_at (Node k l r h) (GoRight # p) = subtree_at r p"

fun graft :: "node \<Rightarrow> step list \<Rightarrow> node \<Rightarrow> node" where
  "graft t [] new = new"
| "graft Null (s # p) new = Null"
| "graft (Node k l r h) (GoLeft # p) new = Node k (graft l p new) r h"
| "graft (Node k l r h) (GoRight # p) new = Node k l (graft r p new) h"

subsection \<open>The variant of \<^verbatim>\<open>balance\<close> with its first two steps exchanged\<close>

text \<open>
  The specification's variant: \<^verbatim>\<open>updateheight(root)\<close> runs first and the balance factor
  is computed afterwards, from the cell as \<^verbatim>\<open>updateheight\<close> left it.
\<close>

definition balance_height_first :: "node \<Rightarrow> error + node" where
  "balance_height_first root =
     (case updateheight root of
        Inl e \<Rightarrow> Inl e
      | Inr (root, _) \<Rightarrow>
          (let balancefactor = balancingfactor root in
           case root of
             Null \<Rightarrow> Inl NullDeref
           | Node _ l r _ \<Rightarrow>
               if 1 <s balancefactor then
                 (if balancingfactor l <s 0 then leftrightrotation root
                  else rightrotation root)
               else if balancefactor <s - 1 then
                 (if 0 <s balancingfactor r then rightleftrotation root
                  else leftrotation root)
               else Inr root))"

subsection \<open>The balance conditions\<close>

text \<open>
  The AVL condition on the shape of a tree; the same condition on the \<^verbatim>\<open>height\<close> fields
  as \<^verbatim>\<open>getheight\<close> reads them; and the condition that every \<^verbatim>\<open>height\<close> field is one
  more than the larger of what \<^verbatim>\<open>getheight\<close> reads at the two children.
\<close>

fun avl_balanced :: "node \<Rightarrow> bool" where
  "avl_balanced Null = True"
| "avl_balanced (Node k l r h) =
     (\<bar>int (tree_height l) - int (tree_height r)\<bar> \<le> 1 \<and> avl_balanced l \<and> avl_balanced r)"

fun stored_balanced :: "node \<Rightarrow> bool" where
  "stored_balanced Null = True"
| "stored_balanced (Node k l r h) =
     (\<bar>sint (getheight l) - sint (getheight r)\<bar> \<le> 1 \<and>
      stored_balanced l \<and> stored_balanced r)"

fun heights_stored :: "node \<Rightarrow> bool" where
  "heights_stored Null = True"
| "heights_stored (Node k l r h) =
     (sint h = 1 + max (sint (getheight l)) (sint (getheight r)) \<and>
      heights_stored l \<and> heights_stored r)"

subsection \<open>The insertion the specification describes\<close>

text \<open>
  The specification's \<^verbatim>\<open>insert\<close>: descend as the source does, attach the new cell, and
  after the recursive assignment return \<^verbatim>\<open>balance(root)\<close>, at every cell of the search
  path.  It is built from the source's \<^verbatim>\<open>createnode\<close> and \<^verbatim>\<open>balance\<close>.
\<close>

fun insert_spec :: "node \<Rightarrow> cint \<Rightarrow> cint \<Rightarrow> error + node" where
  "insert_spec Null d junk = Inr (createnode d junk)"
| "insert_spec (Node k l r h) d junk =
     (if d <s k then
        (case insert_spec l d junk of
           Inl e \<Rightarrow> Inl e
         | Inr l' \<Rightarrow> balance (Node k l' r h))
      else
        (case insert_spec r d junk of
           Inl e \<Rightarrow> Inl e
         | Inr r' \<Rightarrow> balance (Node k l r' h)))"

fun insert_spec_keys :: "node \<Rightarrow> (cint \<times> cint) list \<Rightarrow> error + node" where
  "insert_spec_keys root [] = Inr root"
| "insert_spec_keys root ((d, junk) # rest) =
     (case insert_spec root d junk of
        Inl e \<Rightarrow> Inl e
      | Inr root' \<Rightarrow> insert_spec_keys root' rest)"

subsection \<open>Which rotation \<^verbatim>\<open>balance\<close> takes\<close>

text \<open>
  The branch of \<^verbatim>\<open>balance\<close> that a root selects, by the tests of the source in their
  order, and the branches selected by the successive iterations of the loop of \<^verbatim>\<open>main\<close>.
  Lemma \<open>balance_chosen_rotation\<close> ties \<open>chosen_rotation\<close> to \<open>balance\<close>.
\<close>

datatype rotation =
  NoRotation | RightRotation | LeftRotation | LeftRightRotation | RightLeftRotation

definition chosen_rotation :: "node \<Rightarrow> rotation" where
  "chosen_rotation root =
     (let balancefactor = balancingfactor root in
      case root of
        Null \<Rightarrow> NoRotation
      | Node _ l r _ \<Rightarrow>
          if 1 <s balancefactor then
            (if balancingfactor l <s 0 then LeftRightRotation else RightRotation)
          else if balancefactor <s - 1 then
            (if 0 <s balancingfactor r then RightLeftRotation else LeftRotation)
          else NoRotation)"

fun main_loop_rotations :: "node \<Rightarrow> (cint \<times> cint) list \<Rightarrow> rotation list" where
  "main_loop_rotations root [] = []"
| "main_loop_rotations root ((d, junk) # rest) =
     chosen_rotation (insert_node root d junk) #
     (case balance (insert_node root d junk) of
        Inl e \<Rightarrow> []
      | Inr root' \<Rightarrow> main_loop_rotations root' rest)"

subsection \<open>Zeroed memory\<close>

text \<open>
  Every \<^verbatim>\<open>height\<close> field of a tree is \<open>0\<close>, and every allocation of a run finds \<open>0\<close>
  in the fresh cell: what happens when \<^verbatim>\<open>malloc\<close> hands out zeroed memory.
\<close>

fun heights_zero :: "node \<Rightarrow> bool" where
  "heights_zero Null = True"
| "heights_zero (Node k l r h) = (h = 0 \<and> heights_zero l \<and> heights_zero r)"

fun junk_zero :: "(cint \<times> cint) list \<Rightarrow> bool" where
  "junk_zero [] = True"
| "junk_zero ((d, junk) # rest) = (junk = 0 \<and> junk_zero rest)"

section \<open>Lemmas\<close>

subsection \<open>Insertion\<close>

lemma set_inorder_insert_node:
  "set (inorder (insert_node t d junk)) = Set.insert d (set (inorder t))"
  by (induction t) (auto simp: createnode_def)

lemma mset_inorder_insert_node:
  "mset (inorder (insert_node t d junk)) = add_mset d (mset (inorder t))"
  by (induction t) (auto simp: createnode_def)

lemma count_nodes_insert_node: "count_nodes (insert_node t d junk) = Suc (count_nodes t)"
  by (induction t) (simp_all add: createnode_def)

lemma cells_insert_node: "cells (insert_node t d junk) = cells t + {#(d, junk)#}"
  by (induction t) (simp_all add: createnode_def)

lemma insert_node_graft:
  "insert_node t d junk = graft t (descent t d) (createnode d junk)"
  by (induction t) simp_all

lemma subtree_at_descent: "subtree_at t (descent t d) = Some Null"
  by (induction t) simp_all

text \<open>Sortedness of the traversal is kept: a key goes left only when it is smaller.\<close>

lemma nondecreasing_insert_node:
  "nondecreasing (inorder t) \<Longrightarrow> nondecreasing (inorder (insert_node t d junk))"
proof (induction t)
  case Null
  then show ?case by (simp add: createnode_def nondecreasing_def)
next
  case (Node k l r h)
  from Node.prems have l: "nondecreasing (inorder l)" and r: "nondecreasing (inorder r)"
    and lk: "\<forall>x\<in>set (inorder l). x \<le>s k" and kr: "\<forall>y\<in>set (inorder r). k \<le>s y"
    and lr: "\<forall>x\<in>set (inorder l). \<forall>y\<in>set (inorder r). x \<le>s y"
    by (auto simp: nondecreasing_def sorted_wrt_append)
  show ?case
  proof (cases "d <s k")
    case True
    then have dk: "d \<le>s k" by (rule signed.less_imp_le)
    have "\<forall>y\<in>set (inorder r). d \<le>s y"
      using kr dk by (blast intro: signed.order_trans)
    with True Node.IH(1) [OF l] r lk kr lr dk show ?thesis
      by (auto simp: nondecreasing_def sorted_wrt_append set_inorder_insert_node)
  next
    case False
    then have kd: "k \<le>s d" by (simp add: signed.not_less)
    have "\<forall>x\<in>set (inorder l). x \<le>s d"
      using lk kd by (blast intro: signed.order_trans)
    with False Node.IH(2) [OF r] l lk kr lr kd show ?thesis
      by (auto simp: nondecreasing_def sorted_wrt_append set_inorder_insert_node)
  qed
qed

lemma insert_keys_props:
  "nondecreasing (inorder root) \<Longrightarrow>
   nondecreasing (inorder (insert_keys root kjs)) \<and>
   mset (inorder (insert_keys root kjs)) = mset (inorder root) + mset (map fst kjs) \<and>
   count_nodes (insert_keys root kjs) = count_nodes root + length kjs"
proof (induction kjs arbitrary: root)
  case Nil
  then show ?case by simp
next
  case (Cons kj kjs)
  obtain d junk where kj: "kj = (d, junk)" by (cases kj)
  from Cons.IH [OF nondecreasing_insert_node [OF Cons.prems, of d junk]]
  show ?case
    by (simp add: kj mset_inorder_insert_node count_nodes_insert_node)
qed

subsection \<open>Rotations and \<^verbatim>\<open>balance\<close> keep the traversal\<close>

lemma leftrotation_inorder:
  "leftrotation t = Inr t' \<Longrightarrow> inorder t' = inorder t \<and> count_nodes t' = count_nodes t"
  by (induction t rule: leftrotation.induct) auto

lemma rightrotation_inorder:
  "rightrotation t = Inr t' \<Longrightarrow> inorder t' = inorder t \<and> count_nodes t' = count_nodes t"
  by (induction t rule: rightrotation.induct) auto

lemma rightleftrotation_inorder:
  "rightleftrotation t = Inr t' \<Longrightarrow> inorder t' = inorder t \<and> count_nodes t' = count_nodes t"
  by (cases t) (auto split: sum.splits dest!: rightrotation_inorder leftrotation_inorder)

lemma leftrightrotation_inorder:
  "leftrightrotation t = Inr t' \<Longrightarrow> inorder t' = inorder t \<and> count_nodes t' = count_nodes t"
  by (cases t) (auto split: sum.splits dest!: rightrotation_inorder leftrotation_inorder)

lemma balance_inorder:
  assumes "balance t = Inr t'"
  shows "inorder t' = inorder t \<and> count_nodes t' = count_nodes t"
proof (cases t)
  case Null
  with assms show ?thesis by (simp add: balance_def)
next
  case (Node k l r h)
  let ?u = "Node k l r (max_int (getheight l) (getheight r) + 1)"
  have u: "inorder ?u = inorder t" "count_nodes ?u = count_nodes t"
    by (simp_all add: Node)
  from assms Node have
    "leftrightrotation ?u = Inr t' \<or> rightrotation ?u = Inr t' \<or>
     rightleftrotation ?u = Inr t' \<or> leftrotation ?u = Inr t' \<or> ?u = t'"
    by (simp add: balance_def Let_def split: if_splits)
  then show ?thesis
    using u leftrightrotation_inorder [of ?u t'] rightrotation_inorder [of ?u t']
      rightleftrotation_inorder [of ?u t'] leftrotation_inorder [of ?u t']
    by auto
qed

lemma main_loop_props:
  "nondecreasing (inorder root) \<Longrightarrow> main_loop root kjs = Inr t \<Longrightarrow>
   nondecreasing (inorder t) \<and>
   mset (inorder t) = mset (inorder root) + mset (map fst kjs) \<and>
   count_nodes t = count_nodes root + length kjs"
proof (induction kjs arbitrary: root)
  case Nil
  then show ?case by simp
next
  case (Cons kj kjs)
  obtain d junk where kj: "kj = (d, junk)" by (cases kj)
  from Cons.prems(2) obtain root' where
    b: "balance (insert_node root d junk) = Inr root'" and m: "main_loop root' kjs = Inr t"
    by (auto simp: kj split: sum.splits)
  from balance_inorder [OF b] have
    i: "inorder root' = inorder (insert_node root d junk)"
    and c: "count_nodes root' = Suc (count_nodes root)"
    by (simp_all add: count_nodes_insert_node)
  have "nondecreasing (inorder root')"
    using nondecreasing_insert_node [OF Cons.prems(1), of d junk] i by simp
  from Cons.IH [OF this m] show ?case
    by (simp add: kj i c mset_inorder_insert_node)
qed

text \<open>A non-decreasing list is determined by its multiset.\<close>

lemma nondecreasing_sort:
  assumes "nondecreasing ks" "mset ks = mset ks'"
  shows "map sint ks = sort (map sint ks')"
proof -
  have "sorted (map sint ks)"
    using assms(1) by (simp add: nondecreasing_def sorted_wrt_map word_sle_eq)
  moreover have "mset (map sint ks) = mset (map sint ks')"
    using assms(2) by (metis mset_map)
  ultimately show ?thesis
    by (metis properties_for_sort)
qed


text \<open>
  Below the root, \<^verbatim>\<open>insert\<close> leaves every cell where it was, with its key and its
  height, and every subtree off the search path is the subtree it was.
\<close>

lemma insert_node_keeps_cells_in_place:
  "subtree_at t q = Some (Node k l r h) \<Longrightarrow>
   \<exists>l' r'. subtree_at (insert_node t d junk) q = Some (Node k l' r' h)"
proof (induction t arbitrary: q)
  case Null
  then show ?case by (cases q) simp_all
next
  case (Node k0 l0 r0 h0)
  show ?case
  proof (cases q)
    case Nil
    with Node.prems show ?thesis by simp
  next
    case (Cons s p)
    with Node.prems Node.IH(1) [of p] Node.IH(2) [of p] show ?thesis
      by (cases s) simp_all
  qed
qed

lemma insert_node_frame:
  "subtree_at t q = Some s \<Longrightarrow> \<not> prefix q (descent t d) \<Longrightarrow>
   subtree_at (insert_node t d junk) q = Some s"
proof (induction t arbitrary: q)
  case Null
  then show ?case by (cases q) simp_all
next
  case (Node k0 l0 r0 h0)
  show ?case
  proof (cases q)
    case Nil
    with Node.prems show ?thesis by simp
  next
    case (Cons st p)
    with Node.prems Node.IH(1) [of p] Node.IH(2) [of p] show ?thesis
      by (cases st) (simp_all split: if_splits)
  qed
qed

subsection \<open>The branches of \<^verbatim>\<open>balance\<close>\<close>

lemma balance_chosen_rotation:
  "balance (Node k l r h) =
     (let u = Node k l r (max_int (getheight l) (getheight r) + 1) in
      case chosen_rotation (Node k l r h) of
        NoRotation \<Rightarrow> Inr u
      | RightRotation \<Rightarrow> rightrotation u
      | LeftRotation \<Rightarrow> leftrotation u
      | LeftRightRotation \<Rightarrow> leftrightrotation u
      | RightLeftRotation \<Rightarrow> rightleftrotation u)"
  by (simp add: balance_def chosen_rotation_def Let_def)

subsection \<open>With zeroed memory the loop of \<^verbatim>\<open>main\<close> never rotates\<close>

text \<open>
  Below the root no \<^verbatim>\<open>height\<close> field is ever written, so with zeroed memory the
  balance factor of the root is \<open>0 - 0\<close> at every iteration: the loop returns the tree
  that \<^verbatim>\<open>insert\<close> alone builds, with \<open>1\<close> in the \<^verbatim>\<open>height\<close> field of the root.
\<close>

lemma heights_zero_insert_node:
  "heights_zero t \<Longrightarrow> heights_zero (insert_node t d 0)"
  by (induction t) (simp_all add: createnode_def)

lemma getheight_heights_zero: "heights_zero t \<Longrightarrow> getheight t = 0"
  by (cases t) simp_all

lemma balance_heights_zero:
  "heights_zero l \<Longrightarrow> heights_zero r \<Longrightarrow> balance (Node k l r h) = Inr (Node k l r 1)"
  by (simp add: balance_def getheight_heights_zero max_int_def word_sless_alt)

lemma insert_keys_root_height:
  "\<exists>l' r'. insert_keys (Node k l r h) kjs = Node k l' r' h \<and>
           (\<forall>h'. insert_keys (Node k l r h') kjs = Node k l' r' h')"
proof (induction kjs arbitrary: l r)
  case Nil
  then show ?case by simp
next
  case (Cons kj kjs)
  obtain d junk where kj: "kj = (d, junk)" by (cases kj)
  show ?case
    using Cons.IH [of "insert_node l d junk" r] Cons.IH [of l "insert_node r d junk"]
    by (simp add: kj)
qed

lemma main_loop_zeroed:
  "heights_zero l \<Longrightarrow> heights_zero r \<Longrightarrow> junk_zero kjs \<Longrightarrow> kjs \<noteq> [] \<Longrightarrow>
   \<exists>l' r'. insert_keys (Node k l r h) kjs = Node k l' r' h \<and>
           main_loop (Node k l r h) kjs = Inr (Node k l' r' 1)"
proof (induction kjs arbitrary: l r h)
  case Nil
  then show ?case by simp
next
  case (Cons kj kjs)
  obtain d junk where kj: "kj = (d, junk)" by (cases kj)
  from Cons.prems kj have j: "junk = 0" and jz: "junk_zero kjs" by simp_all
  obtain l1 r1 where i: "insert_node (Node k l r h) d 0 = Node k l1 r1 h"
    and z: "heights_zero l1" "heights_zero r1"
    using Cons.prems(1,2) by (cases "d <s k") (simp_all add: heights_zero_insert_node)
  have b: "balance (Node k l1 r1 h) = Inr (Node k l1 r1 1)"
    using z by (rule balance_heights_zero)
  show ?case
  proof (cases "kjs = []")
    case True
    with i b show ?thesis by (simp add: kj j)
  next
    case False
    from Cons.IH [OF z jz False, of 1] obtain l' r' where
      k1: "insert_keys (Node k l1 r1 1) kjs = Node k l' r' 1"
      and m: "main_loop (Node k l1 r1 1) kjs = Inr (Node k l' r' 1)"
      by blast
    from insert_keys_root_height [of k l1 r1 1 kjs] k1
    have "insert_keys (Node k l1 r1 h) kjs = Node k l' r' h" by auto
    with i b m show ?thesis by (simp add: kj j)
  qed
qed

text \<open>The facts that evaluate the model on numerals.\<close>

lemmas evaluation =
  createnode_def balance_def chosen_rotation_def max_int_def word_sless_alt Let_def main_def

section \<open>The claims\<close>

subsection \<open>C1: \<^verbatim>\<open>insert\<close> and the insertion of the specification\<close>

text \<open>
  Claim C1 says that \<^verbatim>\<open>insert\<close>, after the recursive assignment, returns
  \<^verbatim>\<open>balance(root)\<close>, so that it equals \<open>insert_spec\<close>.  The source returns \<^verbatim>\<open>root\<close>.
  Take the tree that \<^verbatim>\<open>main\<close> has built from the keys 1, 2, 3 with zeroed memory, and
  the key 4: \<^verbatim>\<open>insert\<close> returns the chain of four cells with every field as it was,
  \<open>insert_spec\<close> updates two heights and rotates at the root, and the one \<^verbatim>\<open>balance\<close>
  of the root that \<^verbatim>\<open>main\<close> adds does not make up for the difference.
\<close>

theorem insert_does_not_rebalance:
  "main_loop (createnode 1 0) [(2, 0), (3, 0)] =
     Inr (Node 1 Null (Node 2 Null (Node 3 Null Null 0) 0) 1) \<and>
   insert_node (Node 1 Null (Node 2 Null (Node 3 Null Null 0) 0) 1) 4 0 =
     Node 1 Null (Node 2 Null (Node 3 Null (Node 4 Null Null 0) 0) 0) 1 \<and>
   insert_spec (Node 1 Null (Node 2 Null (Node 3 Null Null 0) 0) 1) 4 0 =
     Inr (Node 2 (Node 1 Null Null 3) (Node 3 Null (Node 4 Null Null 0) 1) 2) \<and>
   Inr (insert_node (Node 1 Null (Node 2 Null (Node 3 Null Null 0) 0) 1) 4 0) \<noteq>
     insert_spec (Node 1 Null (Node 2 Null (Node 3 Null Null 0) 0) 1) 4 0 \<and>
   balance (insert_node (Node 1 Null (Node 2 Null (Node 3 Null Null 0) 0) 1) 4 0) =
     Inr (Node 1 Null (Node 2 Null (Node 3 Null (Node 4 Null Null 0) 0) 0) 1)"
  by (simp add: evaluation)

subsection \<open>C2: the AVL balance condition\<close>

text \<open>
  Claim C2 says that after each insertion every cell has subtrees whose heights differ by
  at most one.  With the keys 1, 2, 3 and zeroed memory the tree is the chain
  1, 2, 3 (left subtree of height 0, right subtree of height 2 at the root): after
  \<^verbatim>\<open>insert\<close> alone, after \<^verbatim>\<open>insert\<close> and the \<^verbatim>\<open>balance\<close> of the root as in \<^verbatim>\<open>main\<close>, and
  also when every cell of the search path is rebalanced as the specification describes,
  because the leaf keeps the height \<open>0\<close> it was allocated with.  When the second
  allocation finds \<open>7\<close> in the fresh cell, the \<^verbatim>\<open>height\<close> fields are out of balance
  as well.
\<close>

theorem avl_balance_broken:
  "insert_keys Null [(1, 0), (2, 0), (3, 0)] =
     Node 1 Null (Node 2 Null (Node 3 Null Null 0) 0) 0 \<and>
   \<not> avl_balanced (Node 1 Null (Node 2 Null (Node 3 Null Null 0) 0) 0) \<and>
   main_loop (createnode 1 0) [(2, 0), (3, 0)] =
     Inr (Node 1 Null (Node 2 Null (Node 3 Null Null 0) 0) 1) \<and>
   \<not> avl_balanced (Node 1 Null (Node 2 Null (Node 3 Null Null 0) 0) 1) \<and>
   tree_height Null = 0 \<and> tree_height (Node 2 Null (Node 3 Null Null 0) 0) = 2 \<and>
   insert_spec_keys Null [(1, 0), (2, 0), (3, 0)] =
     Inr (Node 1 Null (Node 2 Null (Node 3 Null Null 0) 1) 2) \<and>
   \<not> avl_balanced (Node 1 Null (Node 2 Null (Node 3 Null Null 0) 1) 2) \<and>
   main_loop (createnode 1 0) [(2, 7), (3, 0)] =
     Inr (Node 1 Null (Node 2 Null (Node 3 Null Null 0) 9) 8) \<and>
   \<not> avl_balanced (Node 1 Null (Node 2 Null (Node 3 Null Null 0) 9) 8) \<and>
   \<not> stored_balanced (Node 1 Null (Node 2 Null (Node 3 Null Null 0) 9) 8)"
  by (simp add: evaluation)

subsection \<open>C3: the traversal is the sorted sequence of the inserted keys\<close>

text \<open>
  Claim C3.  For every finite sequence of keys inserted one at a time with \<^verbatim>\<open>insert\<close>,
  starting from the empty tree and whatever \<^verbatim>\<open>malloc\<close> left in the fresh cells, the
  in-order traversal of the resulting tree is non-decreasing (in the signed order of
  \<^verbatim>\<open>int\<close>) and has exactly the inserted keys, each as often as it was inserted: it is
  the sorted sequence of the inserted keys, and the tree has as many cells as keys were
  inserted.  The same holds for the tree that the loop of \<^verbatim>\<open>main\<close> returns, which calls
  \<^verbatim>\<open>balance\<close> on the root after each \<^verbatim>\<open>insert\<close>, whenever that loop runs to its end.
\<close>

theorem inorder_sorted_inserted_keys:
  "nondecreasing (inorder (insert_keys Null kjs)) \<and>
   mset (inorder (insert_keys Null kjs)) = mset (map fst kjs) \<and>
   map sint (inorder (insert_keys Null kjs)) = sort (map (sint \<circ> fst) kjs) \<and>
   count_nodes (insert_keys Null kjs) = length kjs \<and>
   (main_loop (createnode d junk) kjs = Inr t \<longrightarrow>
      nondecreasing (inorder t) \<and>
      mset (inorder t) = mset (d # map fst kjs) \<and>
      map sint (inorder t) = sort (map sint (d # map fst kjs)) \<and>
      count_nodes t = Suc (length kjs))"
proof -
  have n: "nondecreasing (inorder Null)" by (simp add: nondecreasing_def)
  note a = insert_keys_props [OF n, of kjs]
  have s: "map sint (inorder (insert_keys Null kjs)) = sort (map (sint \<circ> fst) kjs)"
    using nondecreasing_sort [of "inorder (insert_keys Null kjs)" "map fst kjs"] a by simp
  have c: "nondecreasing (inorder (createnode d junk))"
    by (simp add: nondecreasing_def createnode_def)
  have "nondecreasing (inorder t) \<and>
      mset (inorder t) = mset (d # map fst kjs) \<and>
      map sint (inorder t) = sort (map sint (d # map fst kjs)) \<and>
      count_nodes t = Suc (length kjs)" if m: "main_loop (createnode d junk) kjs = Inr t"
  proof -
    from main_loop_props [OF c m] have
      p: "nondecreasing (inorder t)" "mset (inorder t) = mset (d # map fst kjs)"
        "count_nodes t = Suc (length kjs)"
      by (simp_all add: createnode_def)
    from nondecreasing_sort [OF p(1) p(2)] p show ?thesis by simp
  qed
  with a s show ?thesis by simp
qed

theorem inorder_sorted_inserted_keys_witness:
  "inorder (insert_keys Null [(3, 0), (1, 0), (2, 0), (1, 0)]) = [1, 1, 2, 3] \<and>
   main_loop (createnode 3 0) [(1, 0), (2, 0), (1, 0)] =
     Inr (Node 3 (Node 1 Null (Node 2 (Node 1 Null Null 0) Null 0) 0) Null 1) \<and>
   nondecreasing [1, 1, 2, 3]"
  using inorder_sorted_inserted_keys
    [of "[(3, 0), (1, 0), (2, 0), (1, 0)]" 9 9 Null]
    inorder_sorted_inserted_keys
    [of "[(1, 0), (2, 0), (1, 0)]" 3 0
        "Node 3 (Node 1 Null (Node 2 (Node 1 Null Null 0) Null 0) 0) Null 1"]
  by (simp add: createnode_def balance_def max_int_def word_sless_alt)

subsection \<open>C4: the stored heights\<close>

text \<open>
  Claim C4 says that after each insertion every \<^verbatim>\<open>height\<close> field is one more than the
  larger height of the two children.  \<^verbatim>\<open>insert\<close> writes no height and \<^verbatim>\<open>main\<close> updates
  the root only: with zeroed memory the first cell has height \<open>0\<close> instead of \<open>1\<close>,
  and after the keys 1, 2 and 1, 2, 3 the cells below the root still hold \<open>0\<close>, and
  the root \<open>1\<close> over a tree of height 3.
\<close>

theorem stored_heights_wrong:
  "insert_node Null 1 0 = Node 1 Null Null 0 \<and>
   \<not> heights_stored (Node 1 Null Null 0) \<and>
   main_loop (createnode 1 0) [(2, 0)] = Inr (Node 1 Null (Node 2 Null Null 0) 1) \<and>
   \<not> heights_stored (Node 1 Null (Node 2 Null Null 0) 1) \<and>
   main_loop (createnode 1 0) [(2, 0), (3, 0)] =
     Inr (Node 1 Null (Node 2 Null (Node 3 Null Null 0) 0) 1) \<and>
   \<not> heights_stored (Node 1 Null (Node 2 Null (Node 3 Null Null 0) 0) 1) \<and>
   getheight (Node 1 Null (Node 2 Null (Node 3 Null Null 0) 0) 1) = 1 \<and>
   tree_height (Node 1 Null (Node 2 Null (Node 3 Null Null 0) 0) 1) = 3"
  by (simp add: evaluation)

subsection \<open>C5: the keys 1, 2, 3, 4, 5\<close>

text \<open>
  Claim C5 says that \<^verbatim>\<open>main\<close> on the keys 1 to 5 ends with a tree of height 3 whose
  traversal is 1 2 3 4 5, so that a rotation has happened.  With zeroed memory the
  traversal is as claimed, but no iteration rotates: the final tree is the chain of five
  cells, of height 5, and the \<^verbatim>\<open>height\<close> field of its root holds \<open>1\<close>.
\<close>

theorem main_builds_a_chain:
  "main 0 0 0 0 0 =
     Inr (Node 1 Null (Node 2 Null (Node 3 Null (Node 4 Null (Node 5 Null Null 0) 0) 0) 0) 1) \<and>
   inorder
     (Node 1 Null (Node 2 Null (Node 3 Null (Node 4 Null (Node 5 Null Null 0) 0) 0) 0) 1) =
     [1, 2, 3, 4, 5] \<and>
   tree_height
     (Node 1 Null (Node 2 Null (Node 3 Null (Node 4 Null (Node 5 Null Null 0) 0) 0) 0) 1) = 5 \<and>
   getheight
     (Node 1 Null (Node 2 Null (Node 3 Null (Node 4 Null (Node 5 Null Null 0) 0) 0) 0) 1) = 1 \<and>
   main_loop_rotations (createnode 1 0) [(2, 0), (3, 0), (4, 0), (5, 0)] =
     [NoRotation, NoRotation, NoRotation, NoRotation]"
  by (simp add: evaluation)

subsection \<open>C6: the keys 1, 3, 2\<close>

text \<open>
  Claim C6 says that inserting 1, 3, 2, with rebalancing after each insertion, triggers
  exactly one composite rotation and ends with a three-cell tree whose root is 2, with
  left child 1 and right child 3.  With zeroed memory the loop of \<^verbatim>\<open>main\<close> takes no
  rotation in either iteration: the balance factor of the root is read from the
  \<^verbatim>\<open>height\<close> field of 3, which nothing has written, and the tree stays root 1 with
  right child 3 and 2 as the left child of 3.
\<close>

theorem one_three_two_not_rotated:
  "main_loop (createnode 1 0) [(3, 0), (2, 0)] =
     Inr (Node 1 Null (Node 3 (Node 2 Null Null 0) Null 0) 1) \<and>
   data (Node 1 Null (Node 3 (Node 2 Null Null 0) Null 0) 1) \<noteq> 2 \<and>
   main_loop_rotations (createnode 1 0) [(3, 0), (2, 0)] = [NoRotation, NoRotation]"
  by (simp add: evaluation)

subsection \<open>C7: rotations re-link cells and nothing else\<close>

text \<open>
  Claim C7.  For every tree whose root has a right child, \<^verbatim>\<open>leftrotation\<close> returns a
  tree with the same in-order key sequence and exactly the same cells as its input, each
  with its key and height field untouched (none created, none dropped); the old right
  child is the new root.  Symmetrically \<^verbatim>\<open>rightrotation\<close> for a root with a left child.
\<close>

theorem rotation_relinks_only:
  "(r \<noteq> Null \<longrightarrow>
      (\<exists>t. leftrotation (Node k l r h) = Inr t \<and>
           inorder t = inorder (Node k l r h) \<and>
           cells t = cells (Node k l r h) \<and>
           count_nodes t = count_nodes (Node k l r h) \<and>
           data t = data r \<and> height t = height r)) \<and>
   (l \<noteq> Null \<longrightarrow>
      (\<exists>t. rightrotation (Node k l r h) = Inr t \<and>
           inorder t = inorder (Node k l r h) \<and>
           cells t = cells (Node k l r h) \<and>
           count_nodes t = count_nodes (Node k l r h) \<and>
           data t = data l \<and> height t = height l))"
proof (intro conjI impI)
  assume "r \<noteq> Null"
  then obtain rk rl rr rh where r: "r = Node rk rl rr rh" by (cases r) auto
  show "\<exists>t. leftrotation (Node k l r h) = Inr t \<and>
           inorder t = inorder (Node k l r h) \<and>
           cells t = cells (Node k l r h) \<and>
           count_nodes t = count_nodes (Node k l r h) \<and>
           data t = data r \<and> height t = height r"
    unfolding r by simp
next
  assume "l \<noteq> Null"
  then obtain lk ll lr lh where l: "l = Node lk ll lr lh" by (cases l) auto
  show "\<exists>t. rightrotation (Node k l r h) = Inr t \<and>
           inorder t = inorder (Node k l r h) \<and>
           cells t = cells (Node k l r h) \<and>
           count_nodes t = count_nodes (Node k l r h) \<and>
           data t = data l \<and> height t = height l"
    unfolding l by simp
qed

theorem rotation_relinks_only_witness:
  "Node 2 Null (Node 3 Null Null 1) 2 \<noteq> Null \<and>
   leftrotation (Node 1 Null (Node 2 Null (Node 3 Null Null 1) 2) 3) =
     Inr (Node 2 (Node 1 Null Null 3) (Node 3 Null Null 1) 2) \<and>
   Node 2 (Node 1 Null Null 1) Null 2 \<noteq> Null \<and>
   rightrotation (Node 3 (Node 2 (Node 1 Null Null 1) Null 2) Null 3) =
     Inr (Node 2 (Node 1 Null Null 1) (Node 3 Null Null 3) 2)"
  using rotation_relinks_only [of "Node 2 Null (Node 3 Null Null 1) 2" 1 Null 3]
    rotation_relinks_only [of Null 3 "Node 2 (Node 1 Null Null 1) Null 2" 3]
  by simp

subsection \<open>C8: the height of a fresh cell\<close>

text \<open>
  Claim C8 says that a cell from \<^verbatim>\<open>createnode\<close> has the key, no children, and a height
  that reads as \<open>0\<close> until its first \<^verbatim>\<open>updateheight\<close>.  The key and the children are as
  claimed; the height is whatever the fresh block contained.  When that is \<open>7\<close>,
  \<^verbatim>\<open>getheight\<close> returns \<open>7\<close>, and the \<^verbatim>\<open>balance\<close> of the root in \<^verbatim>\<open>main\<close> reads it through
  \<^verbatim>\<open>balancingfactor\<close> before any \<^verbatim>\<open>updateheight\<close> of the new cell: the factor is \<open>-7\<close>
  and the two-cell tree is rotated.  When it is \<open>-2\<close>, \<^verbatim>\<open>balance\<close> rotates right on a
  root without a left child and dereferences \<^verbatim>\<open>NULL\<close>.
\<close>

theorem createnode_height_unset:
  "createnode 2 7 = Node 2 Null Null 7 \<and>
   getheight (createnode 2 7) = 7 \<and>
   insert_node (createnode 1 0) 2 7 = Node 1 Null (Node 2 Null Null 7) 0 \<and>
   balancingfactor (Node 1 Null (Node 2 Null Null 7) 0) = - 7 \<and>
   balance (Node 1 Null (Node 2 Null Null 7) 0) = Inr (Node 2 (Node 1 Null Null 8) Null 7) \<and>
   balance (insert_node (createnode 1 0) 2 (- 2)) = Inl NullDeref"
  by (simp add: evaluation)

subsection \<open>C9: the order of the first two steps of \<^verbatim>\<open>balance\<close>\<close>

text \<open>
  Claim C9.  For every root, \<^verbatim>\<open>balance\<close> returns what the variant returns that
  updates the height of the root before it computes the balance factor: \<^verbatim>\<open>updateheight\<close>
  writes the height field of the root only, so the balance factor, which reads the
  heights of the two children, is the same before and after.  (On \<^verbatim>\<open>NULL\<close> both
  dereference it.)
\<close>

theorem balance_order_irrelevant:
  "balance root = balance_height_first root \<and>
   (\<forall>root' h'. updateheight root = Inr (root', h') \<longrightarrow>
      balancingfactor root' = balancingfactor root \<and>
      data root' = data root \<and> left root' = left root \<and> right root' = right root \<and>
      height root' = h')"
  by (cases root) (simp_all add: balance_def balance_height_first_def Let_def)

theorem balance_order_irrelevant_witness:
  "balance (Node 1 Null (Node 2 Null (Node 3 Null Null 1) 2) 7) =
     balance_height_first (Node 1 Null (Node 2 Null (Node 3 Null Null 1) 2) 7) \<and>
   updateheight (Node 1 Null (Node 2 Null (Node 3 Null Null 1) 2) 7) =
     Inr (Node 1 Null (Node 2 Null (Node 3 Null Null 1) 2) 3, 3) \<and>
   balancingfactor (Node 1 Null (Node 2 Null (Node 3 Null Null 1) 2) 3) =
     balancingfactor (Node 1 Null (Node 2 Null (Node 3 Null Null 1) 2) 7)"
  using balance_order_irrelevant [of "Node 1 Null (Node 2 Null (Node 3 Null Null 1) 2) 7"]
  by (simp add: max_int_def word_sless_alt)

subsection \<open>C10: \<^verbatim>\<open>insert\<close> itself only attaches a leaf\<close>

text \<open>
  Claim C10.  For every non-empty tree and every key, \<^verbatim>\<open>insert\<close> returns the root cell
  it was given, with its key and height field, and the returned tree is the given one
  with the new leaf put at the position where the search for the key ends, a position
  that held \<^verbatim>\<open>NULL\<close>.  Every cell stays at its position with its key and height (so
  nothing is rotated and no height is updated), every subtree off the search path is
  unchanged, and the cells of the result are the old cells and the new leaf.
\<close>

theorem insert_only_attaches_leaf:
  assumes "root \<noteq> Null"
  shows "insert_node root d junk = graft root (descent root d) (createnode d junk) \<and>
         descent root d \<noteq> [] \<and>
         subtree_at root (descent root d) = Some Null \<and>
         data (insert_node root d junk) = data root \<and>
         height (insert_node root d junk) = height root \<and>
         cells (insert_node root d junk) = cells root + {#(d, junk)#} \<and>
         (\<forall>q k l r h. subtree_at root q = Some (Node k l r h) \<longrightarrow>
            (\<exists>l' r'. subtree_at (insert_node root d junk) q = Some (Node k l' r' h))) \<and>
         (\<forall>q s. subtree_at root q = Some s \<and> \<not> prefix q (descent root d) \<longrightarrow>
            subtree_at (insert_node root d junk) q = Some s)"
proof -
  obtain k l r h where root: "root = Node k l r h"
    using assms by (cases root) auto
  have 1: "insert_node root d junk = graft root (descent root d) (createnode d junk)"
    by (rule insert_node_graft)
  have 2: "descent root d \<noteq> []" by (simp add: root)
  have 3: "subtree_at root (descent root d) = Some Null" by (rule subtree_at_descent)
  have 4: "data (insert_node root d junk) = data root"
    "height (insert_node root d junk) = height root"
    by (simp_all add: root)
  have 5: "cells (insert_node root d junk) = cells root + {#(d, junk)#}"
    by (rule cells_insert_node)
  from 1 2 3 4 5 show ?thesis
    using insert_node_keeps_cells_in_place [of root _ _ _ _ _ d junk]
      insert_node_frame [of root _ _ d junk]
    by blast
qed

theorem insert_only_attaches_leaf_witness:
  "Node 1 Null (Node 2 Null Null 0) 1 \<noteq> Null \<and>
   insert_node (Node 1 Null (Node 2 Null Null 0) 1) 3 0 =
     Node 1 Null (Node 2 Null (Node 3 Null Null 0) 0) 1 \<and>
   descent (Node 1 Null (Node 2 Null Null 0) 1) 3 = [GoRight, GoRight] \<and>
   graft (Node 1 Null (Node 2 Null Null 0) 1) [GoRight, GoRight] (createnode 3 0) =
     Node 1 Null (Node 2 Null (Node 3 Null Null 0) 0) 1"
  using insert_only_attaches_leaf [of "Node 1 Null (Node 2 Null Null 0) 1" 3 0]
  by (simp add: createnode_def word_sless_alt)

end
